theory Spec2Isabelle
  imports Complex_Main "HOL-Library.Log_Nat" "HOL-Library.Word"
begin

text \<open>
  A GraphQL schema over two in-memory \<^verbatim>\<open>Map\<close>s, authors and posts (\<^verbatim>\<open>data.js\<close>), with
  five resolvers (\<^verbatim>\<open>schema.js\<close>):
  \<^item> \<^verbatim>\<open>Query.posts\<close>, the specification's \<^verbatim>\<open>listPosts\<close>: \<open>Query_posts\<close>;
  \<^item> \<^verbatim>\<open>Query.author\<close>, \<^verbatim>\<open>getAuthor\<close>: \<open>Query_author\<close>;
  \<^item> \<^verbatim>\<open>Mutation.upvotePost\<close>, \<^verbatim>\<open>upvotePost\<close>: \<open>Mutation_upvotePost\<close>;
  \<^item> \<^verbatim>\<open>Author.posts\<close>, \<^verbatim>\<open>postsByAuthor\<close>: \<open>Author_posts\<close>;
  \<^item> \<^verbatim>\<open>Post.author\<close>, \<^verbatim>\<open>authorOfPost\<close>: \<open>Post_author\<close>.

  The resolvers are functions of the state, the pair of the two maps; the one that
  writes returns the new state. The values they compute with are JavaScript's: numbers
  are doubles, strings are sequences of code units, and \<^verbatim>\<open>Number(id)\<close> converts the
  argument as the language does.
\<close>

section \<open>JavaScript values used by the resolvers\<close>

subsection \<open>Numbers\<close>

text \<open>
  Every number of the program (the ids, the Map keys, the vote counters, the result of
  \<^verbatim>\<open>Number(id)\<close>) is a JavaScript Number, that is an IEEE 754 double. A finite double is
  kept as the rational it denotes; \<open>NaN\<close> and the two infinities are values of their own.
  The two zeros are one value \<open>Fin 0\<close>: \<^verbatim>\<open>===\<close>, the key comparison of \<^verbatim>\<open>Map\<close> and
  \<^verbatim>\<open>+ 1\<close>, the only operations the resolvers apply to numbers, do not tell them apart.
\<close>

datatype jsnum = NaN | PosInf | NegInf | Fin rat

definition pow2 :: "int \<Rightarrow> rat" where
  "pow2 e = (if 0 \<le> e then 2 ^ nat e else 1 / 2 ^ nat (- e))"

text \<open>\<open>ilog2 a\<close> is the binary exponent of a positive rational: \<open>2 ^ ilog2 a \<le> a < 2 ^ (ilog2 a + 1)\<close>.\<close>

definition ilog2 :: "rat \<Rightarrow> int" where
  "ilog2 a = (case quotient_of a of (n, d) \<Rightarrow>
     let k = bitlen n - bitlen d in if pow2 k \<le> a then k else k - 1)"

definition round_half_even :: "rat \<Rightarrow> int" where
  "round_half_even x = (let f = \<lfloor>x\<rfloor>; r = x - of_int f in
     if r < 1 / 2 then f else if 1 / 2 < r then f + 1 else if even f then f else f + 1)"

text \<open>
  The Number value for a mathematical value: round to nearest, ties to even, with a
  53-bit significand, the least exponent \<open>-1074\<close> (subnormals), and overflow to an
  infinity from \<open>2 ^ 1024\<close> on.
\<close>

definition round_double :: "rat \<Rightarrow> jsnum" where
  "round_double q = (if q = 0 then Fin 0 else
     let a = \<bar>q\<bar>;
         p = max (ilog2 a - 52) (- 1074);
         v = of_int (round_half_even (a / pow2 p)) * pow2 p
     in if pow2 1024 \<le> v then (if 0 < q then PosInf else NegInf)
        else Fin (if 0 < q then v else - v))"

text \<open>A rational is a Number value when rounding leaves it alone.\<close>

definition is_Number :: "rat \<Rightarrow> bool" where
  "is_Number q \<longleftrightarrow> round_double q = Fin q"

fun js_neg :: "jsnum \<Rightarrow> jsnum" where
  "js_neg NaN = NaN"
| "js_neg PosInf = NegInf"
| "js_neg NegInf = PosInf"
| "js_neg (Fin q) = Fin (- q)"

text \<open>The operator \<^verbatim>\<open>+\<close> on two Numbers, as \<^verbatim>\<open>post.votes += 1\<close> applies it.\<close>

definition js_add :: "jsnum \<Rightarrow> jsnum \<Rightarrow> jsnum" where
  "js_add x y =
     (case (x, y) of
        (NaN, _) \<Rightarrow> NaN
      | (_, NaN) \<Rightarrow> NaN
      | (PosInf, NegInf) \<Rightarrow> NaN
      | (NegInf, PosInf) \<Rightarrow> NaN
      | (PosInf, _) \<Rightarrow> PosInf
      | (_, PosInf) \<Rightarrow> PosInf
      | (NegInf, _) \<Rightarrow> NegInf
      | (_, NegInf) \<Rightarrow> NegInf
      | (Fin a, Fin b) \<Rightarrow> round_double (a + b))"

text \<open>The operator \<^verbatim>\<open>===\<close> on two Numbers: \<open>NaN\<close> differs from everything, itself included.\<close>

definition strict_eq :: "jsnum \<Rightarrow> jsnum \<Rightarrow> bool" where
  "strict_eq x y \<longleftrightarrow> x \<noteq> NaN \<and> y \<noteq> NaN \<and> x = y"

subsection \<open>Strings and the conversion \<^verbatim>\<open>Number(value)\<close>\<close>

text \<open>
  A JavaScript string is a sequence of 16-bit code units. \<open>js_string\<close> writes a literal
  whose characters are all below 256.
\<close>

type_synonym code_unit = "16 word"
type_synonym jsstring = "code_unit list"

definition js_string :: "string \<Rightarrow> jsstring" where
  "js_string s = map of_char s"

text \<open>
  The argument of \<^verbatim>\<open>author\<close> and \<^verbatim>\<open>upvotePost\<close> is declared \<^verbatim>\<open>ID!\<close> in the schema: it
  reaches the resolver as a string, and a direct caller may also pass a number.
\<close>

datatype jsval = JNum jsnum | JStr jsstring

text \<open>
  \<open>StringToNumber\<close> follows the grammar \<^verbatim>\<open>StringNumericLiteral\<close> of ECMAScript: optional
  white space around either nothing (the value \<open>0\<close>), a binary, octal or hexadecimal
  integer literal without sign, or a signed decimal literal (\<^verbatim>\<open>Infinity\<close>, digits with an
  optional fraction and an optional exponent). Anything else is \<open>NaN\<close>. The value of a
  literal is rounded exactly, whatever the number of its digits.
\<close>

definition is_white_space :: "code_unit \<Rightarrow> bool" where
  "is_white_space c \<longleftrightarrow>
     c \<in> set [0x0009, 0x000A, 0x000B, 0x000C, 0x000D, 0x0020, 0x00A0, 0x1680,
               0x2028, 0x2029, 0x202F, 0x205F, 0x3000, 0xFEFF]
     \<or> (0x2000 \<le> c \<and> c \<le> 0x200A)"

definition trim :: "jsstring \<Rightarrow> jsstring" where
  "trim s = rev (dropWhile is_white_space (rev (dropWhile is_white_space s)))"

definition is_digit :: "code_unit \<Rightarrow> bool" where
  "is_digit c \<longleftrightarrow> 0x30 \<le> c \<and> c \<le> 0x39"

definition is_hex_digit :: "code_unit \<Rightarrow> bool" where
  "is_hex_digit c \<longleftrightarrow> is_digit c \<or> (0x41 \<le> c \<and> c \<le> 0x46) \<or> (0x61 \<le> c \<and> c \<le> 0x66)"

definition digit_val :: "code_unit \<Rightarrow> nat" where
  "digit_val c =
     (if is_digit c then unat c - 48 else if 0x61 \<le> c then unat c - 87 else unat c - 55)"

definition digits_value :: "nat \<Rightarrow> jsstring \<Rightarrow> nat" where
  "digits_value b ds = foldl (\<lambda>a c. b * a + digit_val c) 0 ds"

definition pow10 :: "int \<Rightarrow> rat" where
  "pow10 e = (if 0 \<le> e then 10 ^ nat e else 1 / 10 ^ nat (- e))"

definition decimal_digits :: "jsstring \<Rightarrow> int option" where
  "decimal_digits ds =
     (if ds \<noteq> [] \<and> list_all is_digit ds then Some (int (digits_value 10 ds)) else None)"

fun signed_integer :: "jsstring \<Rightarrow> int option" where
  "signed_integer [] = None"
| "signed_integer (c # ds) =
     (if c = 0x2B then decimal_digits ds
      else if c = 0x2D then map_option uminus (decimal_digits ds)
      else decimal_digits (c # ds))"

fun exponent_part :: "jsstring \<Rightarrow> int option" where
  "exponent_part [] = Some 0"
| "exponent_part (c # r) = (if c = 0x65 \<or> c = 0x45 then signed_integer r else None)"

fun fraction_part :: "jsstring \<Rightarrow> jsstring \<times> jsstring" where
  "fraction_part [] = ([], [])"
| "fraction_part (c # r) =
     (if c = 0x2E then (takeWhile is_digit r, dropWhile is_digit r) else ([], c # r))"

definition str_unsigned_decimal :: "jsstring \<Rightarrow> jsnum option" where
  "str_unsigned_decimal r =
     (if r = js_string ''Infinity'' then Some PosInf
      else let ip = takeWhile is_digit r;
               (fp, r2) = fraction_part (dropWhile is_digit r)
           in if ip = [] \<and> fp = [] then None
              else case exponent_part r2 of
                     None \<Rightarrow> None
                   | Some e \<Rightarrow> Some (round_double
                       ((of_nat (digits_value 10 ip) + of_nat (digits_value 10 fp) / 10 ^ length fp)
                          * pow10 e)))"

fun str_decimal :: "jsstring \<Rightarrow> jsnum option" where
  "str_decimal [] = None"
| "str_decimal (c # r) =
     (if c = 0x2B then str_unsigned_decimal r
      else if c = 0x2D then map_option js_neg (str_unsigned_decimal r)
      else str_unsigned_decimal (c # r))"

fun non_decimal :: "jsstring \<Rightarrow> nat option" where
  "non_decimal (c0 # c1 # ds) =
     (if c0 = 0x30 \<and> ds \<noteq> [] then
        (if (c1 = 0x78 \<or> c1 = 0x58) \<and> list_all is_hex_digit ds then Some (digits_value 16 ds)
         else if (c1 = 0x6F \<or> c1 = 0x4F) \<and> list_all (\<lambda>c. 0x30 \<le> c \<and> c \<le> 0x37) ds
           then Some (digits_value 8 ds)
         else if (c1 = 0x62 \<or> c1 = 0x42) \<and> list_all (\<lambda>c. 0x30 \<le> c \<and> c \<le> 0x31) ds
           then Some (digits_value 2 ds)
         else None)
      else None)"
| "non_decimal _ = None"

definition StringToNumber :: "jsstring \<Rightarrow> jsnum" where
  "StringToNumber s =
     (let t = trim s in
      if t = [] then Fin 0
      else case non_decimal t of
             Some n \<Rightarrow> round_double (of_nat n)
           | None \<Rightarrow> (case str_decimal t of Some v \<Rightarrow> v | None \<Rightarrow> NaN))"

fun Number :: "jsval \<Rightarrow> jsnum" where
  "Number (JNum n) = n"
| "Number (JStr s) = StringToNumber s"

text \<open>The decimal string of an integer: an optional minus sign and the digits.\<close>

definition digit_char :: "nat \<Rightarrow> code_unit" where
  "digit_char d = of_nat (48 + d)"

fun digits_of :: "nat \<Rightarrow> jsstring" where
  "digits_of n =
     (if n < 10 then [digit_char n] else digits_of (n div 10) @ [digit_char (n mod 10)])"

declare digits_of.simps [simp del]

definition decimal_string :: "int \<Rightarrow> jsstring" where
  "decimal_string i = (if i < 0 then 0x2D # digits_of (nat (- i)) else digits_of (nat i))"

section \<open>The data: \<^verbatim>\<open>data.js\<close>\<close>

subsection \<open>The JavaScript \<^verbatim>\<open>Map\<close>\<close>

text \<open>
  A \<^verbatim>\<open>Map\<close> keeps its entries in insertion order and holds every key once. Its keys are
  Numbers here; two keys are the same by SameValueZero, which on \<open>jsnum\<close> is equality
  (\<open>NaN\<close> is the same key as \<open>NaN\<close>). \<^verbatim>\<open>get\<close> of an absent key is \<^verbatim>\<open>undefined\<close>: \<open>None\<close>.
  \<^verbatim>\<open>set\<close> of a present key replaces the value where it stands, of a new key appends.
  \<^verbatim>\<open>new Map(entries)\<close> sets the entries one after the other.
\<close>

type_synonym 'v js_map = "(jsnum \<times> 'v) list"

definition Map_get :: "'v js_map \<Rightarrow> jsnum \<Rightarrow> 'v option" where
  "Map_get m k = map_of m k"

fun Map_set :: "'v js_map \<Rightarrow> jsnum \<Rightarrow> 'v \<Rightarrow> 'v js_map" where
  "Map_set [] k v = [(k, v)]"
| "Map_set ((k', v') # m) k v = (if k' = k then (k', v) # m else (k', v') # Map_set m k v)"

definition Map_values :: "'v js_map \<Rightarrow> 'v list" where
  "Map_values m = map snd m"

definition new_Map :: "(jsnum \<times> 'v) list \<Rightarrow> 'v js_map" where
  "new_Map entries = foldl (\<lambda>m (k, v). Map_set m k v) [] entries"

subsection \<open>Authors and posts\<close>

text \<open>
  The field \<^verbatim>\<open>id\<close> of the two object shapes is \<open>author_id\<close> and \<open>post_id\<close>, the other
  fields keep their names.
\<close>

record Author =
  author_id :: jsnum
  firstName :: jsstring
  lastName :: jsstring

record Post =
  post_id :: jsnum
  authorId :: jsnum
  title :: jsstring
  votes :: jsnum

text \<open>The two module-level maps are the state of the program.\<close>

record state =
  authors :: "Author js_map"
  posts :: "Post js_map"

definition seed :: state where
  "seed = \<lparr>
     authors = new_Map [
       (Fin 1, \<lparr>author_id = Fin 1, firstName = js_string ''Tom'', lastName = js_string ''Coleman''\<rparr>),
       (Fin 2, \<lparr>author_id = Fin 2, firstName = js_string ''Sashko'', lastName = js_string ''Stubailo''\<rparr>),
       (Fin 3, \<lparr>author_id = Fin 3, firstName = js_string ''Mikhail'', lastName = js_string ''Novikov''\<rparr>)],
     posts = new_Map [
       (Fin 1, \<lparr>post_id = Fin 1, authorId = Fin 1, title = js_string ''Introduction to GraphQL'', votes = Fin 2\<rparr>),
       (Fin 2, \<lparr>post_id = Fin 2, authorId = Fin 2, title = js_string ''Welcome to Meteor'', votes = Fin 3\<rparr>),
       (Fin 3, \<lparr>post_id = Fin 3, authorId = Fin 2, title = js_string ''Advanced GraphQL'', votes = Fin 1\<rparr>),
       (Fin 4, \<lparr>post_id = Fin 4, authorId = Fin 3, title = js_string ''Launchpad is Cool'', votes = Fin 7\<rparr>)]\<rparr>"

section \<open>The resolvers: \<^verbatim>\<open>schema.js\<close>\<close>

text \<open>
  A resolver that throws returns \<open>Inl\<close> of the error. Both throws are \<^verbatim>\<open>new Error(...)\<close>
  with a message that names the kind of entity and the argument; the error value keeps
  the kind and leaves the message text out.
\<close>

datatype entity = AuthorEntity | PostEntity

datatype error = NotFound entity

text \<open>\<^verbatim>\<open>posts: () => Array.from(posts.values())\<close>\<close>

definition Query_posts :: "state \<Rightarrow> Post list" where
  "Query_posts s = Map_values (posts s)"

text \<open>
  \<^verbatim>\<open>author: (_, { id }) => { const author = authors.get(Number(id));
    if (!author) throw new Error(...); return author; }\<close>
  An object is truthy, so \<^verbatim>\<open>!author\<close> holds for \<^verbatim>\<open>undefined\<close> only.
\<close>

definition Query_author :: "state \<Rightarrow> jsval \<Rightarrow> error + Author" where
  "Query_author s i =
     (case Map_get (authors s) (Number i) of
        None \<Rightarrow> Inl (NotFound AuthorEntity)
      | Some author \<Rightarrow> Inr author)"

text \<open>
  \<^verbatim>\<open>upvotePost: (_, { postId }) => { const post = posts.get(Number(postId));
    if (!post) throw new Error(...); post.votes += 1; return post; }\<close>
  The resolver returns its result together with the state it leaves. The assignment
  changes the object that the map holds under the key; every entry of \<^verbatim>\<open>data.js\<close> is an
  object of its own, so the change is the replacement of that entry's value.
\<close>

definition Mutation_upvotePost :: "state \<Rightarrow> jsval \<Rightarrow> (error + Post) \<times> state" where
  "Mutation_upvotePost s postId =
     (case Map_get (posts s) (Number postId) of
        None \<Rightarrow> (Inl (NotFound PostEntity), s)
      | Some post \<Rightarrow>
          let post' = post\<lparr>votes := js_add (votes post) (Fin 1)\<rparr>
          in (Inr post', s\<lparr>posts := Map_set (posts s) (Number postId) post'\<rparr>))"

text \<open>
  \<^verbatim>\<open>posts: (author) => Array.from(posts.values()).filter((post) => post.authorId === author.id)\<close>
\<close>

definition Author_posts :: "state \<Rightarrow> Author \<Rightarrow> Post list" where
  "Author_posts s author =
     filter (\<lambda>post. strict_eq (authorId post) (author_id author)) (Map_values (posts s))"

text \<open>\<^verbatim>\<open>author: (post) => authors.get(post.authorId)\<close>, \<open>None\<close> for \<^verbatim>\<open>undefined\<close>.\<close>

definition Post_author :: "state \<Rightarrow> Post \<Rightarrow> Author option" where
  "Post_author s post = Map_get (authors s) (authorId post)"

subsection \<open>The states of a run\<close>

text \<open>
  The program starts in \<open>seed\<close>, and \<^verbatim>\<open>upvotePost\<close> is the only resolver that writes.
\<close>

inductive reachable :: "state \<Rightarrow> bool" where
  init: "reachable seed"
| upvote: "reachable s \<Longrightarrow> reachable (snd (Mutation_upvotePost s postId))"

text \<open>\<open>upvote_times n postId s\<close> is the state after \<open>n\<close> calls \<^verbatim>\<open>upvotePost(postId)\<close> in a row.\<close>

fun upvote_times :: "nat \<Rightarrow> jsval \<Rightarrow> state \<Rightarrow> state" where
  "upvote_times 0 postId s = s"
| "upvote_times (Suc n) postId s = upvote_times n postId (snd (Mutation_upvotePost s postId))"

text \<open>
  The largest vote count: \<open>2 ^ 53 = 9007199254740992\<close>, the first integer whose successor
  is not a double.
\<close>

definition max_votes :: nat where
  "max_votes = 2 ^ 53"

text \<open>The seed after \<open>9007199254740990\<close> upvotes of post 1, which has \<open>2\<close> votes at the start.\<close>

definition at_max_votes :: state where
  "at_max_votes = upvote_times 9007199254740990 (JNum (Fin 1)) seed"

text \<open>The seed with the four vote counts replaced.\<close>

definition with_votes :: "nat \<Rightarrow> nat \<Rightarrow> nat \<Rightarrow> nat \<Rightarrow> state" where
  "with_votes a b c d = \<lparr>
     authors = authors seed,
     posts = [
       (Fin 1, \<lparr>post_id = Fin 1, authorId = Fin 1, title = js_string ''Introduction to GraphQL'', votes = Fin (of_nat a)\<rparr>),
       (Fin 2, \<lparr>post_id = Fin 2, authorId = Fin 2, title = js_string ''Welcome to Meteor'', votes = Fin (of_nat b)\<rparr>),
       (Fin 3, \<lparr>post_id = Fin 3, authorId = Fin 2, title = js_string ''Advanced GraphQL'', votes = Fin (of_nat c)\<rparr>),
       (Fin 4, \<lparr>post_id = Fin 4, authorId = Fin 3, title = js_string ''Launchpad is Cool'', votes = Fin (of_nat d)\<rparr>)]\<rparr>"

section \<open>Rounding and addition on integers\<close>

lemma round_half_even_of_int: "round_half_even (of_int m) = m"
  by (simp add: round_half_even_def)

lemma bitlen_one: "bitlen 1 = 1"
  by (simp add: bitlen_alt_def)

lemma ilog2_of_int:
  assumes "0 < n"
  shows "ilog2 (of_int n) = bitlen n - 1"
proof -
  have b: "1 \<le> bitlen n" using assms bitlen_eq_zero_iff [of n] bitlen_nonneg [of n] by linarith
  have "(2::int) ^ nat (bitlen n - 1) \<le> n" using bitlen_bounds [OF assms] by simp
  then have "(of_int ((2::int) ^ nat (bitlen n - 1)) :: rat) \<le> of_int n"
    by (simp only: of_int_le_iff)
  then have "pow2 (bitlen n - 1) \<le> of_int n" using b by (simp add: pow2_def)
  then show ?thesis by (simp add: ilog2_def bitlen_one)
qed

lemma bitlen_le_54:
  assumes "0 < n" "n \<le> 2 ^ 53"
  shows "bitlen n \<le> 54"
proof (rule ccontr)
  assume "\<not> bitlen n \<le> 54"
  then have "54 \<le> nat (bitlen n - 1)" by simp
  then have "(2::int) ^ 54 \<le> 2 ^ nat (bitlen n - 1)" by (rule power_increasing) simp
  also have "\<dots> \<le> n" using bitlen_bounds [OF assms(1)] by simp
  finally show False using assms(2) by simp
qed

lemma round_double_pos_int:
  assumes "0 < n" "n \<le> 2 ^ 53"
  shows "round_double (of_int n) = Fin (of_int n)"
proof -
  let ?b = "bitlen n"
  have b1: "1 \<le> ?b" using assms(1) bitlen_eq_zero_iff [of n] bitlen_nonneg [of n] by linarith
  have b54: "?b \<le> 54" using assms by (rule bitlen_le_54)
  have p: "max (ilog2 (of_int n) - 52) (- 1074) = ?b - 53"
    using b1 by (simp add: ilog2_of_int [OF assms(1)])
  have small: "\<not> pow2 1024 \<le> (of_int n :: rat)"
  proof -
    have "n < 2 ^ 1024" using assms(2) by (rule le_less_trans) simp
    then have "(of_int n :: rat) < of_int (2 ^ 1024)" by (simp only: of_int_less_iff)
    then show ?thesis by (simp add: pow2_def)
  qed
  have v: "of_int (round_half_even (of_int n / pow2 (?b - 53))) * pow2 (?b - 53) = (of_int n :: rat)"
  proof (cases "?b \<le> 53")
    case True
    define k where "k = nat (53 - ?b)"
    have e1: "pow2 (?b - 53) = 1 / 2 ^ k"
      using True by (cases "?b = 53") (simp_all add: pow2_def k_def)
    have "(of_int n :: rat) / pow2 (?b - 53) = of_int (n * 2 ^ k)" by (simp add: e1)
    then have "round_half_even (of_int n / pow2 (?b - 53)) = n * 2 ^ k"
      by (simp only: round_half_even_of_int)
    then show ?thesis by (simp add: e1)
  next
    case False
    then have b: "?b = 54" using b54 by simp
    have "(2::int) ^ 53 \<le> n" using bitlen_bounds [OF assms(1)] b by simp
    then have n: "n = 2 ^ 53" using assms(2) by simp
    have e2: "pow2 (?b - 53) = 2" by (simp add: b pow2_def)
    have "(of_int n :: rat) / 2 = of_int (2 ^ 52)" by (simp add: n)
    then have "round_half_even (of_int n / pow2 (?b - 53)) = 2 ^ 52"
      by (simp only: e2 round_half_even_of_int)
    then have "of_int (round_half_even (of_int n / pow2 (?b - 53))) * pow2 (?b - 53)
        = (of_int (2 ^ 52) :: rat) * 2" by (simp only: e2)
    also have "\<dots> = of_int (2 ^ 53)" by simp
    finally show ?thesis by (simp only: n)
  qed
  show ?thesis
    using assms(1) small
    by (simp add: round_double_def Let_def p v del: max.absorb1 max.absorb2 max.absorb3 max.absorb4)
qed

lemma round_double_neg:
  "round_double (- q) = (case round_double q of Fin v \<Rightarrow> Fin (- v) | PosInf \<Rightarrow> NegInf | NegInf \<Rightarrow> PosInf | NaN \<Rightarrow> NaN)"
  by (cases "0 < q") (auto simp: round_double_def Let_def)

lemma round_double_of_int:
  assumes "\<bar>n\<bar> \<le> 2 ^ 53"
  shows "round_double (of_int n) = Fin (of_int n)"
proof -
  consider "n = 0" | "0 < n" | "n < 0" by linarith
  then show ?thesis
  proof cases
    case 1
    then show ?thesis by (simp add: round_double_def)
  next
    case 2
    then show ?thesis using assms by (simp add: round_double_pos_int)
  next
    case 3
    then have "round_double (of_int (- n)) = Fin (of_int (- n))"
      using assms by (intro round_double_pos_int) simp_all
    then show ?thesis using round_double_neg [of "of_int (- n)"] by simp
  qed
qed

lemma js_add_one_int:
  assumes "\<bar>v\<bar> < 2 ^ 53"
  shows "js_add (Fin (of_int v)) (Fin 1) = Fin (of_int (v + 1))"
proof -
  have "\<bar>v + 1\<bar> \<le> 2 ^ 53" using assms by simp
  then have "round_double (of_int (v + 1)) = Fin (of_int (v + 1))" by (rule round_double_of_int)
  then show ?thesis by (simp add: js_add_def)
qed

lemma js_add_one_limit: "js_add (Fin (2 ^ 53)) (Fin 1) = Fin (2 ^ 53)"
proof -
  have "round_double (2 ^ 53 + 1) = Fin (2 ^ 53)" by code_simp
  then show ?thesis by (simp add: js_add_def)
qed

section \<open>Decimal strings convert to their integer\<close>

lemma unat_digit_char: "d < 10 \<Longrightarrow> unat (digit_char d) = 48 + d"
  unfolding digit_char_def by (simp only: unat_of_nat) simp

lemma is_digit_iff: "is_digit c \<longleftrightarrow> 48 \<le> unat c \<and> unat c \<le> 57"
  by (simp add: is_digit_def word_le_nat_alt)

lemma is_digit_digit_char: "d < 10 \<Longrightarrow> is_digit (digit_char d)"
  by (simp add: is_digit_iff unat_digit_char)

lemma digit_val_digit_char: "d < 10 \<Longrightarrow> digit_val (digit_char d) = d"
  by (simp add: digit_val_def is_digit_digit_char unat_digit_char)

lemma digits_of_all_digits: "list_all is_digit (digits_of n)"
  by (induction n rule: digits_of.induct) (subst digits_of.simps, simp add: is_digit_digit_char)

lemma digits_of_nonempty: "digits_of n \<noteq> []"
  by (subst digits_of.simps) simp

lemma digits_value_Nil: "digits_value b [] = 0"
  by (simp add: digits_value_def)

lemma digits_value_snoc: "digits_value b (ds @ [c]) = b * digits_value b ds + digit_val c"
  by (simp add: digits_value_def)

lemma digits_value_digits_of: "digits_value 10 (digits_of n) = n"
proof (induction n rule: digits_of.induct)
  case (1 n)
  show ?case
  proof (cases "n < 10")
    case True
    then show ?thesis by (subst digits_of.simps) (simp add: digits_value_def digit_val_digit_char)
  next
    case False
    then have "digits_value 10 (digits_of (n div 10)) = n div 10" by (rule "1.IH")
    with False show ?thesis
      by (subst digits_of.simps) (simp add: digits_value_snoc digit_val_digit_char)
  qed
qed

lemma not_ws_digit: "is_digit c \<Longrightarrow> \<not> is_white_space c"
  by (auto simp: is_digit_iff is_white_space_def word_le_nat_alt)

lemma trim_id:
  assumes "s \<noteq> []" "\<not> is_white_space (hd s)" "\<not> is_white_space (last s)"
  shows "trim s = s"
proof -
  have 1: "dropWhile is_white_space s = s" using assms(1,2) by (cases s) simp_all
  have "rev s \<noteq> []" "\<not> is_white_space (hd (rev s))" using assms(1,3) by (simp_all add: hd_rev)
  then have "dropWhile is_white_space (rev s) = rev s" by (cases "rev s") simp_all
  then show ?thesis by (simp add: trim_def 1)
qed

lemma str_unsigned_decimal_digits:
  assumes "ds \<noteq> []" "list_all is_digit ds"
  shows "str_unsigned_decimal ds = Some (round_double (of_nat (digits_value 10 ds)))"
proof -
  have tw: "takeWhile is_digit ds = ds" "dropWhile is_digit ds = []"
    using assms(2) by (simp_all add: list_all_iff)
  have "is_digit (hd ds)" using assms by (cases ds) simp_all
  then have "hd ds \<noteq> 0x49" by (auto simp: is_digit_def)
  then have ninf: "ds \<noteq> js_string ''Infinity''" by (auto simp: js_string_def)
  show ?thesis
    using assms(1) by (simp add: str_unsigned_decimal_def ninf tw pow10_def digits_value_Nil)
qed

lemma non_decimal_digits:
  assumes "list_all is_digit ds"
  shows "non_decimal ds = None"
proof (cases ds rule: non_decimal.cases)
  case (1 c0 c1 r)
  then have "is_digit c1" using assms by simp
  then have "c1 \<noteq> 0x78" "c1 \<noteq> 0x58" "c1 \<noteq> 0x6F" "c1 \<noteq> 0x4F" "c1 \<noteq> 0x62" "c1 \<noteq> 0x42"
    by (auto simp: is_digit_def)
  then show ?thesis using 1 by simp
qed simp_all

lemma StringToNumber_digits:
  assumes "ds \<noteq> []" "list_all is_digit ds"
  shows "StringToNumber ds = round_double (of_nat (digits_value 10 ds))"
proof -
  have h: "is_digit (hd ds)" and l: "is_digit (last ds)"
    using assms by (simp_all add: list_all_iff)
  have t: "trim ds = ds" using assms(1) h l by (intro trim_id not_ws_digit)
  have "hd ds \<noteq> 0x2B" "hd ds \<noteq> 0x2D" using h by (auto simp: is_digit_def)
  then have "str_decimal ds = str_unsigned_decimal ds" using assms(1) by (cases ds) simp_all
  then show ?thesis
    using assms by (simp add: StringToNumber_def t non_decimal_digits str_unsigned_decimal_digits)
qed

lemma StringToNumber_minus_digits:
  assumes "ds \<noteq> []" "list_all is_digit ds"
  shows "StringToNumber (0x2D # ds) = js_neg (round_double (of_nat (digits_value 10 ds)))"
proof -
  have l: "is_digit (last ds)" using assms by (simp add: list_all_iff)
  have "\<not> is_white_space 0x2D" by (simp add: is_white_space_def)
  then have t: "trim (0x2D # ds) = 0x2D # ds"
    using assms(1) l by (intro trim_id) (simp_all add: not_ws_digit)
  have nd: "non_decimal (0x2D # ds) = None" by (cases ds) simp_all
  show ?thesis
    using assms by (simp add: StringToNumber_def t nd str_unsigned_decimal_digits)
qed

lemma js_neg_round_double: "js_neg (round_double q) = round_double (- q)"
  by (simp add: round_double_neg split: jsnum.splits)

lemma StringToNumber_decimal_string:
  "StringToNumber (decimal_string i) = round_double (of_int i)"
proof (cases "i < 0")
  case True
  then have "(of_nat (nat (- i)) :: rat) = - of_int i" by simp
  with True show ?thesis
    by (simp add: decimal_string_def StringToNumber_minus_digits digits_of_nonempty
        digits_of_all_digits digits_value_digits_of js_neg_round_double del: of_nat_nat)
next
  case False
  then have "(of_nat (nat i) :: rat) = of_int i" by simp
  with False show ?thesis
    by (simp add: decimal_string_def StringToNumber_digits digits_of_nonempty
        digits_of_all_digits digits_value_digits_of del: of_nat_nat)
qed

section \<open>The map operations\<close>

lemma Map_get_set: "Map_get (Map_set m k v) k' = (if k' = k then Some v else Map_get m k')"
  by (induction m) (auto simp: Map_get_def)

lemma Map_set_fresh: "k \<notin> fst ` set m \<Longrightarrow> Map_set m k v = m @ [(k, v)]"
  by (induction m) auto

lemma foldl_Map_set:
  "distinct (map fst (m @ es)) \<Longrightarrow> foldl (\<lambda>m (k, v). Map_set m k v) m es = m @ es"
proof (induction es arbitrary: m)
  case Nil
  then show ?case by simp
next
  case (Cons e es)
  obtain k v where e: "e = (k, v)" by (cases e)
  have fresh: "k \<notin> fst ` set m" using Cons.prems by (auto simp: e)
  have "distinct (map fst ((m @ [(k, v)]) @ es))" using Cons.prems by (simp add: e)
  then have "foldl (\<lambda>m (k, v). Map_set m k v) (m @ [(k, v)]) es = (m @ [(k, v)]) @ es"
    by (rule Cons.IH)
  then show ?case by (simp add: e Map_set_fresh [OF fresh])
qed

lemma new_Map_distinct: "distinct (map fst es) \<Longrightarrow> new_Map es = es"
  using foldl_Map_set [of "[]" es] by (simp add: new_Map_def)

section \<open>The reachable states\<close>

lemma authors_seed: "authors seed = [
       (Fin 1, \<lparr>author_id = Fin 1, firstName = js_string ''Tom'', lastName = js_string ''Coleman''\<rparr>),
       (Fin 2, \<lparr>author_id = Fin 2, firstName = js_string ''Sashko'', lastName = js_string ''Stubailo''\<rparr>),
       (Fin 3, \<lparr>author_id = Fin 3, firstName = js_string ''Mikhail'', lastName = js_string ''Novikov''\<rparr>)]"
  by (simp add: seed_def new_Map_def)

lemma posts_seed: "posts seed = [
       (Fin 1, \<lparr>post_id = Fin 1, authorId = Fin 1, title = js_string ''Introduction to GraphQL'', votes = Fin 2\<rparr>),
       (Fin 2, \<lparr>post_id = Fin 2, authorId = Fin 2, title = js_string ''Welcome to Meteor'', votes = Fin 3\<rparr>),
       (Fin 3, \<lparr>post_id = Fin 3, authorId = Fin 2, title = js_string ''Advanced GraphQL'', votes = Fin 1\<rparr>),
       (Fin 4, \<lparr>post_id = Fin 4, authorId = Fin 3, title = js_string ''Launchpad is Cool'', votes = Fin 7\<rparr>)]"
  by (simp add: seed_def new_Map_def)

lemma seed_with_votes: "seed = with_votes 2 3 1 7"
  by (simp add: with_votes_def posts_seed)

lemma js_add_one_nat:
  assumes "a \<le> max_votes"
  shows "js_add (Fin (of_nat a)) (Fin 1) = Fin (of_nat (min (a + 1) max_votes))"
proof (cases "a = max_votes")
  case True
  then show ?thesis using js_add_one_limit by (simp add: max_votes_def)
next
  case False
  then have lt: "a < max_votes" using assms by simp
  then have "\<bar>int a\<bar> < 2 ^ 53" by (simp add: max_votes_def)
  then have "js_add (Fin (of_int (int a))) (Fin 1) = Fin (of_int (int a + 1))"
    by (rule js_add_one_int)
  moreover have "min (a + 1) max_votes = a + 1" using lt by simp
  ultimately show ?thesis by (simp add: add.commute)
qed

lemma upvote_with_votes:
  assumes "a \<le> max_votes" "b \<le> max_votes" "c \<le> max_votes" "d \<le> max_votes"
  shows "snd (Mutation_upvotePost (with_votes a b c d) postId) =
     (if Number postId = Fin 1 then with_votes (min (a + 1) max_votes) b c d
      else if Number postId = Fin 2 then with_votes a (min (b + 1) max_votes) c d
      else if Number postId = Fin 3 then with_votes a b (min (c + 1) max_votes) d
      else if Number postId = Fin 4 then with_votes a b c (min (d + 1) max_votes)
      else with_votes a b c d)"
  using assms
  by (simp add: Mutation_upvotePost_def Map_get_def with_votes_def Let_def js_add_one_nat)

lemma reachable_with_votes:
  assumes "reachable s"
  shows "\<exists>a b c d. s = with_votes a b c d \<and> 2 \<le> a \<and> a \<le> max_votes \<and> 3 \<le> b \<and> b \<le> max_votes
           \<and> 1 \<le> c \<and> c \<le> max_votes \<and> 7 \<le> d \<and> d \<le> max_votes"
  using assms
proof (induction rule: reachable.induct)
  case init
  have "seed = with_votes 2 3 1 7 \<and> (2::nat) \<le> 2 \<and> 2 \<le> max_votes \<and> (3::nat) \<le> 3 \<and> 3 \<le> max_votes
          \<and> (1::nat) \<le> 1 \<and> 1 \<le> max_votes \<and> (7::nat) \<le> 7 \<and> 7 \<le> max_votes"
    by (simp add: seed_with_votes max_votes_def)
  then show ?case by blast
next
  case (upvote s postId)
  then obtain a b c d where s: "s = with_votes a b c d"
    and bounds: "2 \<le> a" "a \<le> max_votes" "3 \<le> b" "b \<le> max_votes" "1 \<le> c" "c \<le> max_votes" "7 \<le> d" "d \<le> max_votes"
    by blast
  have big: "8 \<le> max_votes" by (simp add: max_votes_def)
  show ?case
    unfolding s upvote_with_votes [OF bounds(2,4,6,8)]
    using bounds big by (auto intro!: exI)
qed

lemma reachable_upvote_times: "reachable s \<Longrightarrow> reachable (upvote_times n postId s)"
  by (induction n arbitrary: s) (simp_all add: reachable.upvote)

lemma upvote_times_with_votes:
  assumes "a \<le> max_votes" "b \<le> max_votes" "c \<le> max_votes" "d \<le> max_votes"
  shows "upvote_times n postId (with_votes a b c d) =
     (if Number postId = Fin 1 then with_votes (min (a + n) max_votes) b c d
      else if Number postId = Fin 2 then with_votes a (min (b + n) max_votes) c d
      else if Number postId = Fin 3 then with_votes a b (min (c + n) max_votes) d
      else if Number postId = Fin 4 then with_votes a b c (min (d + n) max_votes)
      else with_votes a b c d)"
  using assms
proof (induction n arbitrary: a b c d)
  case 0
  then show ?case by simp
next
  case (Suc n)
  have m: "\<And>x. min (min (Suc x) max_votes + n) max_votes = min (Suc (x + n)) max_votes" by arith
  show ?case
    using Suc.prems by (simp add: upvote_with_votes Suc.IH m)
qed

lemma Number_decimal_string:
  "\<bar>n\<bar> \<le> 2 ^ 53 \<Longrightarrow> Number (JStr (decimal_string n)) = Fin (of_int n)"
  by (simp add: StringToNumber_decimal_string round_double_of_int)

lemma is_Number_of_int: "\<bar>n\<bar> \<le> 2 ^ 53 \<Longrightarrow> is_Number (of_int n)"
  by (simp add: is_Number_def round_double_of_int)

lemma with_votes_get:
  "Map_get (posts (with_votes a b c d)) k = Some post \<Longrightarrow>
     (k = Fin 1 \<and> post = \<lparr>post_id = Fin 1, authorId = Fin 1, title = js_string ''Introduction to GraphQL'', votes = Fin (of_nat a)\<rparr>)
   \<or> (k = Fin 2 \<and> post = \<lparr>post_id = Fin 2, authorId = Fin 2, title = js_string ''Welcome to Meteor'', votes = Fin (of_nat b)\<rparr>)
   \<or> (k = Fin 3 \<and> post = \<lparr>post_id = Fin 3, authorId = Fin 2, title = js_string ''Advanced GraphQL'', votes = Fin (of_nat c)\<rparr>)
   \<or> (k = Fin 4 \<and> post = \<lparr>post_id = Fin 4, authorId = Fin 3, title = js_string ''Launchpad is Cool'', votes = Fin (of_nat d)\<rparr>)"
  by (simp add: with_votes_def Map_get_def split: if_splits)

lemma reachable_post:
  assumes "reachable s" "Map_get (posts s) k = Some post"
  shows "k \<in> {Fin 1, Fin 2, Fin 3, Fin 4} \<and> post_id post = k
       \<and> (\<exists>n::nat. votes post = Fin (of_nat n) \<and> 1 \<le> n \<and> n \<le> max_votes)"
proof -
  obtain a b c d where s: "s = with_votes a b c d"
    and bounds: "2 \<le> a" "a \<le> max_votes" "3 \<le> b" "b \<le> max_votes" "1 \<le> c" "c \<le> max_votes" "7 \<le> d" "d \<le> max_votes"
    using reachable_with_votes [OF assms(1)] by blast
  have a: "1 \<le> a" and b: "1 \<le> b" and d: "1 \<le> d" using bounds by simp_all
  from with_votes_get [OF assms(2) [unfolded s]] show ?thesis
  proof (elim disjE conjE)
    assume "k = Fin 1" and p: "post = \<lparr>post_id = Fin 1, authorId = Fin 1, title = js_string ''Introduction to GraphQL'', votes = Fin (of_nat a)\<rparr>"
    then show ?thesis using a bounds(2) by auto
  next
    assume "k = Fin 2" and p: "post = \<lparr>post_id = Fin 2, authorId = Fin 2, title = js_string ''Welcome to Meteor'', votes = Fin (of_nat b)\<rparr>"
    then show ?thesis using b bounds(4) by auto
  next
    assume "k = Fin 3" and p: "post = \<lparr>post_id = Fin 3, authorId = Fin 2, title = js_string ''Advanced GraphQL'', votes = Fin (of_nat c)\<rparr>"
    then show ?thesis using bounds(5,6) by auto
  next
    assume "k = Fin 4" and p: "post = \<lparr>post_id = Fin 4, authorId = Fin 3, title = js_string ''Launchpad is Cool'', votes = Fin (of_nat d)\<rparr>"
    then show ?thesis using d bounds(8) by auto
  qed
qed

lemma reachable_absent:
  assumes "reachable s"
  shows "Map_get (posts s) k = None \<longleftrightarrow> k \<notin> {Fin 1, Fin 2, Fin 3, Fin 4}"
proof -
  obtain a b c d where s: "s = with_votes a b c d" using reachable_with_votes [OF assms] by blast
  show ?thesis by (simp add: s with_votes_def Map_get_def)
qed

lemma at_max_votes_with_votes: "at_max_votes = with_votes max_votes 3 1 7"
proof -
  have "upvote_times 9007199254740990 (JNum (Fin 1)) (with_votes 2 3 1 7)
          = with_votes (min (2 + 9007199254740990) max_votes) 3 1 7"
    by (subst upvote_times_with_votes) (simp_all add: max_votes_def)
  then show ?thesis by (simp add: at_max_votes_def seed_with_votes max_votes_def)
qed

lemma upvote_max_times_seed:
  "upvote_times 9007199254740992 (JNum (Fin 1)) seed = with_votes max_votes 3 1 7"
proof -
  have "upvote_times 9007199254740992 (JNum (Fin 1)) (with_votes 2 3 1 7)
          = with_votes (min (2 + 9007199254740992) max_votes) 3 1 7"
    by (subst upvote_times_with_votes) (simp_all add: max_votes_def)
  then show ?thesis by (simp add: seed_with_votes max_votes_def)
qed

lemma decimal_string_1: "decimal_string 1 = js_string ''1''"
  by (simp add: decimal_string_def digits_of.simps js_string_def digit_char_def)

lemma decimal_string_2: "decimal_string 2 = js_string ''2''"
  by (simp add: decimal_string_def digits_of.simps js_string_def digit_char_def)

lemma StringToNumber_abc: "StringToNumber (js_string ''abc'') = NaN"
  by (simp add: StringToNumber_def trim_def is_white_space_def str_unsigned_decimal_def
      is_digit_def js_string_def)

section \<open>The claims\<close>

subsection \<open>\<^verbatim>\<open>upvotePost\<close>: one vote more, or \<open>NotFound\<close>\<close>

text \<open>
  Claim C1, as amended. For every state and every argument \<open>postId\<close>: if the post store
  holds a post under \<open>Number postId\<close> and its vote count is an integer of magnitude below
  \<open>2 ^ 53\<close>, \<^verbatim>\<open>upvotePost\<close> returns that post with the count increased by exactly 1, and the
  store holds the returned post afterwards; if the store holds no such post, the call fails
  with \<open>NotFound\<close> and leaves the state. In a reachable state the post is absent exactly
  when \<open>Number postId\<close> is none of 1, 2, 3, 4, a present post has the id asked for, and
  its vote count is an integer from 1 to \<open>2 ^ 53\<close>.
\<close>

theorem upvotePost_increments:
  "(\<forall>post v. Map_get (posts s) (Number postId) = Some post \<and> votes post = Fin (of_int v) \<and> \<bar>v\<bar> < 2 ^ 53 \<longrightarrow>
       fst (Mutation_upvotePost s postId) = Inr (post\<lparr>votes := Fin (of_int (v + 1))\<rparr>)
     \<and> Map_get (posts (snd (Mutation_upvotePost s postId))) (Number postId)
         = Some (post\<lparr>votes := Fin (of_int (v + 1))\<rparr>))
   \<and> (Map_get (posts s) (Number postId) = None \<longrightarrow>
       Mutation_upvotePost s postId = (Inl (NotFound PostEntity), s))
   \<and> (reachable s \<longrightarrow>
        (Map_get (posts s) (Number postId) = None \<longleftrightarrow> Number postId \<notin> {Fin 1, Fin 2, Fin 3, Fin 4})
      \<and> (\<forall>post. Map_get (posts s) (Number postId) = Some post \<longrightarrow>
            post_id post = Number postId
          \<and> (\<exists>v. votes post = Fin (of_int v) \<and> 1 \<le> v \<and> v \<le> 2 ^ 53)))"
proof (intro conjI allI impI)
  fix post v
  assume h: "Map_get (posts s) (Number postId) = Some post \<and> votes post = Fin (of_int v) \<and> \<bar>v\<bar> < 2 ^ 53"
  then have add: "js_add (votes post) (Fin 1) = Fin (of_int (v + 1))"
    using js_add_one_int [of v] by simp
  show "fst (Mutation_upvotePost s postId) = Inr (post\<lparr>votes := Fin (of_int (v + 1))\<rparr>)"
    using h add by (simp add: Mutation_upvotePost_def Let_def)
  show "Map_get (posts (snd (Mutation_upvotePost s postId))) (Number postId)
         = Some (post\<lparr>votes := Fin (of_int (v + 1))\<rparr>)"
    using h add by (simp add: Mutation_upvotePost_def Let_def Map_get_set)
next
  assume "Map_get (posts s) (Number postId) = None"
  then show "Mutation_upvotePost s postId = (Inl (NotFound PostEntity), s)"
    by (simp add: Mutation_upvotePost_def)
next
  assume r: "reachable s"
  show "Map_get (posts s) (Number postId) = None \<longleftrightarrow> Number postId \<notin> {Fin 1, Fin 2, Fin 3, Fin 4}"
    using r by (rule reachable_absent)
  fix post
  assume p: "Map_get (posts s) (Number postId) = Some post"
  show "post_id post = Number postId"
    using reachable_post [OF r p] by simp
  obtain n :: nat where n: "votes post = Fin (of_nat n)" "1 \<le> n" "n \<le> max_votes"
    using reachable_post [OF r p] by blast
  have "votes post = Fin (of_int (int n)) \<and> 1 \<le> int n \<and> int n \<le> 2 ^ 53"
    using n by (simp add: max_votes_def)
  then show "\<exists>v. votes post = Fin (of_int v) \<and> 1 \<le> v \<and> v \<le> 2 ^ 53" by blast
qed

text \<open>The seed: upvoting \<^verbatim>\<open>"1"\<close> takes post 1 from 2 to 3 votes, upvoting 5 fails.\<close>

theorem upvotePost_increments_witness:
  "reachable seed
   \<and> Map_get (posts seed) (Number (JStr (js_string ''1'')))
       = Some \<lparr>post_id = Fin 1, authorId = Fin 1, title = js_string ''Introduction to GraphQL'', votes = Fin 2\<rparr>
   \<and> fst (Mutation_upvotePost seed (JStr (js_string ''1'')))
       = Inr \<lparr>post_id = Fin 1, authorId = Fin 1, title = js_string ''Introduction to GraphQL'', votes = Fin 3\<rparr>
   \<and> Map_get (posts (snd (Mutation_upvotePost seed (JStr (js_string ''1''))))) (Fin 1)
       = Some \<lparr>post_id = Fin 1, authorId = Fin 1, title = js_string ''Introduction to GraphQL'', votes = Fin 3\<rparr>
   \<and> Map_get (posts seed) (Number (JNum (Fin 5))) = None
   \<and> Mutation_upvotePost seed (JNum (Fin 5)) = (Inl (NotFound PostEntity), seed)"
proof -
  let ?p = "\<lparr>post_id = Fin 1, authorId = Fin 1, title = js_string ''Introduction to GraphQL'', votes = Fin 2\<rparr>"
  have n: "StringToNumber (js_string ''1'') = Fin 1"
    using Number_decimal_string [of 1] by (simp add: decimal_string_1)
  have g: "Map_get (posts seed) (Number (JStr (js_string ''1''))) = Some ?p"
    by (simp add: n Map_get_def posts_seed)
  have h: "Map_get (posts seed) (Number (JStr (js_string ''1''))) = Some ?p
           \<and> votes ?p = Fin (of_int 2) \<and> \<bar>2 :: int\<bar> < 2 ^ 53"
    using g by simp
  have a: "fst (Mutation_upvotePost seed (JStr (js_string ''1''))) = Inr (?p\<lparr>votes := Fin (of_int (2 + 1))\<rparr>)
     \<and> Map_get (posts (snd (Mutation_upvotePost seed (JStr (js_string ''1''))))) (Number (JStr (js_string ''1'')))
         = Some (?p\<lparr>votes := Fin (of_int (2 + 1))\<rparr>)"
    using upvotePost_increments [of seed "JStr (js_string ''1'')"] h by blast
  have e: "Map_get (posts seed) (Number (JNum (Fin 5))) = None"
    by (simp add: Map_get_def posts_seed)
  have b: "Mutation_upvotePost seed (JNum (Fin 5)) = (Inl (NotFound PostEntity), seed)"
    using upvotePost_increments [of seed "JNum (Fin 5)"] e by blast
  show ?thesis using a b e g n reachable.init by simp
qed

text \<open>
  Claim C1 as stated fails on the state reached from the seed by \<open>9007199254740990\<close>
  upvotes of post 1. Post 1 is present there with \<open>9007199254740992 = 2 ^ 53\<close> votes, and
  \<^verbatim>\<open>upvotePost(1)\<close> returns it with the same count and leaves the state as it is:
  \<open>2 ^ 53 + 1\<close> is not a double, and the sum rounds to \<open>2 ^ 53\<close>.
\<close>

theorem upvotePost_at_max_votes:
  "posts at_max_votes = [
       (Fin 1, \<lparr>post_id = Fin 1, authorId = Fin 1, title = js_string ''Introduction to GraphQL'', votes = Fin 9007199254740992\<rparr>),
       (Fin 2, \<lparr>post_id = Fin 2, authorId = Fin 2, title = js_string ''Welcome to Meteor'', votes = Fin 3\<rparr>),
       (Fin 3, \<lparr>post_id = Fin 3, authorId = Fin 2, title = js_string ''Advanced GraphQL'', votes = Fin 1\<rparr>),
       (Fin 4, \<lparr>post_id = Fin 4, authorId = Fin 3, title = js_string ''Launchpad is Cool'', votes = Fin 7\<rparr>)]
   \<and> reachable at_max_votes
   \<and> Mutation_upvotePost at_max_votes (JNum (Fin 1)) =
       (Inr \<lparr>post_id = Fin 1, authorId = Fin 1, title = js_string ''Introduction to GraphQL'', votes = Fin 9007199254740992\<rparr>,
        at_max_votes)"
proof -
  have l: "js_add (Fin 9007199254740992) (Fin 1) = Fin 9007199254740992"
    using js_add_one_limit by simp
  have r: "reachable at_max_votes"
    unfolding at_max_votes_def by (rule reachable_upvote_times [OF reachable.init])
  show ?thesis
    using r
    by (simp add: at_max_votes_with_votes with_votes_def max_votes_def Mutation_upvotePost_def
        Map_get_def Let_def l)
qed

subsection \<open>\<^verbatim>\<open>author\<close>: the author of that id, or \<open>NotFound\<close>\<close>

text \<open>
  Claim C2. In every reachable state and for every argument \<open>i\<close>: if the author store
  holds an author whose id is \<open>Number i\<close>, \<^verbatim>\<open>author(id)\<close> returns that author; if it
  holds none, the call fails with \<open>NotFound\<close>, an error and not a value; and an author
  with that id is present exactly when \<open>Number i\<close> is 1, 2 or 3.
\<close>

theorem getAuthor_by_id:
  assumes "reachable s"
  shows "(\<forall>author \<in> set (Map_values (authors s)).
            author_id author = Number i \<longrightarrow> Query_author s i = Inr author)
       \<and> ((\<forall>author \<in> set (Map_values (authors s)). author_id author \<noteq> Number i) \<longrightarrow>
            Query_author s i = Inl (NotFound AuthorEntity))
       \<and> ((\<exists>author \<in> set (Map_values (authors s)). author_id author = Number i) \<longleftrightarrow>
            Number i \<in> {Fin 1, Fin 2, Fin 3})"
proof -
  obtain a b c d where "s = with_votes a b c d" using reachable_with_votes [OF assms] by blast
  then have "authors s = authors seed" by (simp add: with_votes_def)
  then show ?thesis
    by (auto simp: Query_author_def Map_get_def Map_values_def authors_seed)
qed

text \<open>The seed: \<^verbatim>\<open>author(id: "2")\<close> is Sashko Stubailo, \<^verbatim>\<open>author(4)\<close> fails.\<close>

theorem getAuthor_by_id_witness:
  "reachable seed
   \<and> Number (JStr (js_string ''2'')) = Fin 2
   \<and> Query_author seed (JStr (js_string ''2''))
       = Inr \<lparr>author_id = Fin 2, firstName = js_string ''Sashko'', lastName = js_string ''Stubailo''\<rparr>
   \<and> Query_author seed (JNum (Fin 4)) = Inl (NotFound AuthorEntity)"
proof -
  have n: "Number (JStr (js_string ''2'')) = Fin 2"
    using Number_decimal_string [of 2] by (simp add: decimal_string_2)
  have m: "\<lparr>author_id = Fin 2, firstName = js_string ''Sashko'', lastName = js_string ''Stubailo''\<rparr>
             \<in> set (Map_values (authors seed))"
    by (simp add: Map_values_def authors_seed)
  have "Query_author seed (JStr (js_string ''2''))
       = Inr \<lparr>author_id = Fin 2, firstName = js_string ''Sashko'', lastName = js_string ''Stubailo''\<rparr>"
    using getAuthor_by_id [OF reachable.init, of "JStr (js_string ''2'')"] m n by auto
  moreover have "\<forall>author \<in> set (Map_values (authors seed)). author_id author \<noteq> Number (JNum (Fin 4))"
    by (simp add: Map_values_def authors_seed)
  then have "Query_author seed (JNum (Fin 4)) = Inl (NotFound AuthorEntity)"
    using getAuthor_by_id [OF reachable.init, of "JNum (Fin 4)"] by blast
  ultimately show ?thesis using n reachable.init by simp
qed

subsection \<open>\<^verbatim>\<open>Author.posts\<close>\<close>

text \<open>
  Claim C3. In every reachable state and for every author value, \<^verbatim>\<open>Author.posts\<close> returns
  exactly the posts of the store whose \<open>authorId\<close> equals the author's id, in the order
  in which \<^verbatim>\<open>posts\<close> lists the store; the list is empty when no post has that author.
\<close>

theorem postsByAuthor_exact:
  assumes "reachable s"
  shows "Author_posts s author =
           filter (\<lambda>post. authorId post = author_id author) (Query_posts s)
       \<and> ((\<forall>post \<in> set (Query_posts s). authorId post \<noteq> author_id author) \<longrightarrow>
            Author_posts s author = [])"
proof -
  obtain a b c d where "s = with_votes a b c d" using reachable_with_votes [OF assms] by blast
  then have "Author_posts s author =
           filter (\<lambda>post. authorId post = author_id author) (Query_posts s)"
    by (auto simp: Author_posts_def Query_posts_def Map_values_def with_votes_def strict_eq_def)
  then show ?thesis by (simp add: filter_empty_conv)
qed

text \<open>The seed: author 2 has the posts 2 and 3, in this order; an author 9 has none.\<close>

theorem postsByAuthor_exact_witness:
  "reachable seed
   \<and> Author_posts seed \<lparr>author_id = Fin 2, firstName = js_string ''Sashko'', lastName = js_string ''Stubailo''\<rparr>
       = [\<lparr>post_id = Fin 2, authorId = Fin 2, title = js_string ''Welcome to Meteor'', votes = Fin 3\<rparr>,
          \<lparr>post_id = Fin 3, authorId = Fin 2, title = js_string ''Advanced GraphQL'', votes = Fin 1\<rparr>]
   \<and> Author_posts seed \<lparr>author_id = Fin 9, firstName = js_string ''No'', lastName = js_string ''Posts''\<rparr> = []"
  using postsByAuthor_exact [OF reachable.init,
      of "\<lparr>author_id = Fin 2, firstName = js_string ''Sashko'', lastName = js_string ''Stubailo''\<rparr>"]
    postsByAuthor_exact [OF reachable.init,
      of "\<lparr>author_id = Fin 9, firstName = js_string ''No'', lastName = js_string ''Posts''\<rparr>"]
    reachable.init
  by (simp add: Query_posts_def Map_values_def posts_seed)

subsection \<open>\<^verbatim>\<open>Post.author\<close>\<close>

text \<open>
  Claim C4. In every reachable state, for a post whose \<open>authorId\<close> is the id of an
  author of the store, \<^verbatim>\<open>Post.author\<close> returns that author.
\<close>

theorem authorOfPost_resolves:
  assumes "reachable s" "author \<in> set (Map_values (authors s))" "authorId post = author_id author"
  shows "Post_author s post = Some author"
proof -
  obtain a b c d where "s = with_votes a b c d" using reachable_with_votes [OF assms(1)] by blast
  then have "authors s = authors seed" by (simp add: with_votes_def)
  then show ?thesis
    using assms(2,3) by (auto simp: Post_author_def Map_get_def Map_values_def authors_seed)
qed

text \<open>The seed: the author of post 3 is author 2.\<close>

theorem authorOfPost_resolves_witness:
  "reachable seed
   \<and> \<lparr>author_id = Fin 2, firstName = js_string ''Sashko'', lastName = js_string ''Stubailo''\<rparr>
       \<in> set (Map_values (authors seed))
   \<and> Post_author seed \<lparr>post_id = Fin 3, authorId = Fin 2, title = js_string ''Advanced GraphQL'', votes = Fin 1\<rparr>
       = Some \<lparr>author_id = Fin 2, firstName = js_string ''Sashko'', lastName = js_string ''Stubailo''\<rparr>"
proof -
  have m: "\<lparr>author_id = Fin 2, firstName = js_string ''Sashko'', lastName = js_string ''Stubailo''\<rparr>
             \<in> set (Map_values (authors seed))"
    by (simp add: Map_values_def authors_seed)
  show ?thesis
    using authorOfPost_resolves [OF reachable.init m,
        of "\<lparr>post_id = Fin 3, authorId = Fin 2, title = js_string ''Advanced GraphQL'', votes = Fin 1\<rparr>"]
      m reachable.init
    by simp
qed

subsection \<open>Repeated upvotes\<close>

text \<open>
  Claim C5, as amended. In every reachable state, for a post present under
  \<open>Number postId\<close> with \<open>v\<close> votes, and for every \<open>N\<close>: after \<open>N\<close> calls
  \<^verbatim>\<open>upvotePost(postId)\<close> in a row the post has \<open>min (v + N) (2 ^ 53)\<close> votes and is
  otherwise the same. The increase is exactly \<open>N\<close> as long as \<open>v + N \<le> 2 ^ 53\<close>.
\<close>

theorem upvote_times_total:
  assumes "reachable s" "Map_get (posts s) (Number postId) = Some post"
  shows "\<exists>v. votes post = Fin (of_nat v) \<and> v \<le> 2 ^ 53
           \<and> Map_get (posts (upvote_times N postId s)) (Number postId)
               = Some (post\<lparr>votes := Fin (of_nat (min (v + N) (2 ^ 53)))\<rparr>)"
proof -
  obtain a b c d where s: "s = with_votes a b c d"
    and bounds: "a \<le> max_votes" "b \<le> max_votes" "c \<le> max_votes" "d \<le> max_votes"
    using reachable_with_votes [OF assms(1)] by blast
  note step = upvote_times_with_votes [OF bounds, of N postId]
  from with_votes_get [OF assms(2) [unfolded s]] show ?thesis
  proof (elim disjE conjE)
    assume k: "Number postId = Fin 1" and p: "post = \<lparr>post_id = Fin 1, authorId = Fin 1, title = js_string ''Introduction to GraphQL'', votes = Fin (of_nat a)\<rparr>"
    have "votes post = Fin (of_nat a) \<and> a \<le> 2 ^ 53
           \<and> Map_get (posts (upvote_times N postId s)) (Number postId)
               = Some (post\<lparr>votes := Fin (of_nat (min (a + N) (2 ^ 53)))\<rparr>)"
      using bounds(1) unfolding s step by (simp add: k p with_votes_def Map_get_def max_votes_def)
    then show ?thesis by blast
  next
    assume k: "Number postId = Fin 2" and p: "post = \<lparr>post_id = Fin 2, authorId = Fin 2, title = js_string ''Welcome to Meteor'', votes = Fin (of_nat b)\<rparr>"
    have "votes post = Fin (of_nat b) \<and> b \<le> 2 ^ 53
           \<and> Map_get (posts (upvote_times N postId s)) (Number postId)
               = Some (post\<lparr>votes := Fin (of_nat (min (b + N) (2 ^ 53)))\<rparr>)"
      using bounds(2) unfolding s step by (simp add: k p with_votes_def Map_get_def max_votes_def)
    then show ?thesis by blast
  next
    assume k: "Number postId = Fin 3" and p: "post = \<lparr>post_id = Fin 3, authorId = Fin 2, title = js_string ''Advanced GraphQL'', votes = Fin (of_nat c)\<rparr>"
    have "votes post = Fin (of_nat c) \<and> c \<le> 2 ^ 53
           \<and> Map_get (posts (upvote_times N postId s)) (Number postId)
               = Some (post\<lparr>votes := Fin (of_nat (min (c + N) (2 ^ 53)))\<rparr>)"
      using bounds(3) unfolding s step by (simp add: k p with_votes_def Map_get_def max_votes_def)
    then show ?thesis by blast
  next
    assume k: "Number postId = Fin 4" and p: "post = \<lparr>post_id = Fin 4, authorId = Fin 3, title = js_string ''Launchpad is Cool'', votes = Fin (of_nat d)\<rparr>"
    have "votes post = Fin (of_nat d) \<and> d \<le> 2 ^ 53
           \<and> Map_get (posts (upvote_times N postId s)) (Number postId)
               = Some (post\<lparr>votes := Fin (of_nat (min (d + N) (2 ^ 53)))\<rparr>)"
      using bounds(4) unfolding s step by (simp add: k p with_votes_def Map_get_def max_votes_def)
    then show ?thesis by blast
  qed
qed

text \<open>The seed: three upvotes take post 4 from 7 to 10 votes.\<close>

theorem upvote_times_total_witness:
  "reachable seed
   \<and> Map_get (posts seed) (Number (JNum (Fin 4)))
       = Some \<lparr>post_id = Fin 4, authorId = Fin 3, title = js_string ''Launchpad is Cool'', votes = Fin 7\<rparr>
   \<and> Map_get (posts (upvote_times 3 (JNum (Fin 4)) seed)) (Fin 4)
       = Some \<lparr>post_id = Fin 4, authorId = Fin 3, title = js_string ''Launchpad is Cool'', votes = Fin 10\<rparr>"
proof -
  let ?p = "\<lparr>post_id = Fin 4, authorId = Fin 3, title = js_string ''Launchpad is Cool'', votes = Fin 7\<rparr>"
  have g: "Map_get (posts seed) (Number (JNum (Fin 4))) = Some ?p"
    by (simp add: Map_get_def posts_seed)
  obtain v :: nat where v: "votes ?p = Fin (of_nat v)"
    and r: "Map_get (posts (upvote_times 3 (JNum (Fin 4)) seed)) (Number (JNum (Fin 4)))
               = Some (?p\<lparr>votes := Fin (of_nat (min (v + 3) (2 ^ 53)))\<rparr>)"
    using upvote_times_total [OF reachable.init g, of 3] by blast
  from v have "(of_nat v :: rat) = of_nat 7" by simp
  then have "v = 7" by (simp only: of_nat_eq_iff)
  then show ?thesis using r g reachable.init by simp
qed

text \<open>
  Claim C5 as stated fails for \<open>N = 9007199254740992\<close> on post 1 of the seed: the post
  starts with 2 votes and ends with \<open>9007199254740992\<close>, an increase of \<open>N - 2\<close>.
\<close>

theorem upvote_times_saturates:
  "Map_get (posts seed) (Fin 1) =
     Some \<lparr>post_id = Fin 1, authorId = Fin 1, title = js_string ''Introduction to GraphQL'', votes = Fin 2\<rparr>
   \<and> Map_get (posts (upvote_times 9007199254740992 (JNum (Fin 1)) seed)) (Fin 1) =
     Some \<lparr>post_id = Fin 1, authorId = Fin 1, title = js_string ''Introduction to GraphQL'', votes = Fin 9007199254740992\<rparr>"
  unfolding upvote_max_times_seed by (simp add: posts_seed with_votes_def max_votes_def Map_get_def)

subsection \<open>\<^verbatim>\<open>posts\<close>: the whole store\<close>

text \<open>
  Claim C6. \<^verbatim>\<open>posts\<close> returns the values of the post store in insertion order: on a
  store built by \<^verbatim>\<open>new Map(entries)\<close> from entries with distinct keys it returns the
  values of the entries one for one, in their order. In every reachable state these are
  the posts 1, 2, 3, 4 in this order, and a post is listed exactly when the store holds it
  under its id: nothing is filtered, sorted or cut. The result is a list value computed
  from the state at each call, and the call leaves the state.
\<close>

theorem listPosts_all:
  "(distinct (map fst entries) \<longrightarrow>
      Query_posts \<lparr>authors = as, posts = new_Map entries\<rparr> = map snd entries)
   \<and> (reachable s \<longrightarrow>
        map post_id (Query_posts s) = [Fin 1, Fin 2, Fin 3, Fin 4]
      \<and> (\<forall>k post. Map_get (posts s) k = Some post \<longleftrightarrow> post \<in> set (Query_posts s) \<and> post_id post = k))"
proof (intro conjI impI)
  assume "distinct (map fst entries)"
  then show "Query_posts \<lparr>authors = as, posts = new_Map entries\<rparr> = map snd entries"
    by (simp add: Query_posts_def Map_values_def new_Map_distinct)
next
  assume "reachable s"
  then obtain a b c d where s: "s = with_votes a b c d" using reachable_with_votes by blast
  show "map post_id (Query_posts s) = [Fin 1, Fin 2, Fin 3, Fin 4]"
    by (simp add: s with_votes_def Query_posts_def Map_values_def)
  show "\<forall>k post. Map_get (posts s) k = Some post \<longleftrightarrow> post \<in> set (Query_posts s) \<and> post_id post = k"
    by (auto simp: s with_votes_def Query_posts_def Map_values_def Map_get_def)
qed

text \<open>The seed: the four posts of \<^verbatim>\<open>data.js\<close>, in the order written there.\<close>

theorem listPosts_all_witness:
  "distinct (map fst [
       (Fin 1, \<lparr>post_id = Fin 1, authorId = Fin 1, title = js_string ''Introduction to GraphQL'', votes = Fin 2\<rparr>),
       (Fin 2, \<lparr>post_id = Fin 2, authorId = Fin 2, title = js_string ''Welcome to Meteor'', votes = Fin 3\<rparr>),
       (Fin 3, \<lparr>post_id = Fin 3, authorId = Fin 2, title = js_string ''Advanced GraphQL'', votes = Fin 1\<rparr>),
       (Fin 4, \<lparr>post_id = Fin 4, authorId = Fin 3, title = js_string ''Launchpad is Cool'', votes = Fin 7\<rparr>)])
   \<and> Query_posts seed = [
       \<lparr>post_id = Fin 1, authorId = Fin 1, title = js_string ''Introduction to GraphQL'', votes = Fin 2\<rparr>,
       \<lparr>post_id = Fin 2, authorId = Fin 2, title = js_string ''Welcome to Meteor'', votes = Fin 3\<rparr>,
       \<lparr>post_id = Fin 3, authorId = Fin 2, title = js_string ''Advanced GraphQL'', votes = Fin 1\<rparr>,
       \<lparr>post_id = Fin 4, authorId = Fin 3, title = js_string ''Launchpad is Cool'', votes = Fin 7\<rparr>]
   \<and> reachable seed
   \<and> map post_id (Query_posts seed) = [Fin 1, Fin 2, Fin 3, Fin 4]"
proof -
  let ?es = "[
       (Fin 1, \<lparr>post_id = Fin 1, authorId = Fin 1, title = js_string ''Introduction to GraphQL'', votes = Fin 2\<rparr>),
       (Fin 2, \<lparr>post_id = Fin 2, authorId = Fin 2, title = js_string ''Welcome to Meteor'', votes = Fin 3\<rparr>),
       (Fin 3, \<lparr>post_id = Fin 3, authorId = Fin 2, title = js_string ''Advanced GraphQL'', votes = Fin 1\<rparr>),
       (Fin 4, \<lparr>post_id = Fin 4, authorId = Fin 3, title = js_string ''Launchpad is Cool'', votes = Fin 7\<rparr>)]"
  have d: "distinct (map fst ?es)" by simp
  have sd: "seed = \<lparr>authors = authors seed, posts = new_Map ?es\<rparr>" by (simp add: seed_def)
  have "Query_posts \<lparr>authors = authors seed, posts = new_Map ?es\<rparr> = map snd ?es"
    using listPosts_all [of ?es "authors seed" seed] d by blast
  then have q: "Query_posts seed = map snd ?es" using sd by simp
  have "map post_id (Query_posts seed) = [Fin 1, Fin 2, Fin 3, Fin 4]"
    using listPosts_all [of ?es "authors seed" seed] reachable.init by blast
  then show ?thesis using q d reachable.init by simp
qed

subsection \<open>What an upvote leaves alone\<close>

text \<open>
  Claim C7. In every reachable state, a call of \<^verbatim>\<open>upvotePost\<close> that succeeds leaves the
  author store, which is the seed's before and after; it leaves the keys of the post store
  and their order; and the posts listed afterwards are the posts listed before, where the
  post with the id asked for has the votes of the returned post and is otherwise the
  same, and every other post is the same. The other resolvers write nothing: they are
  functions of the state.
\<close>

theorem upvotePost_frame:
  assumes "reachable s" "Mutation_upvotePost s postId = (Inr post', s')"
  shows "authors s = authors seed \<and> authors s' = authors seed
       \<and> map fst (posts s') = map fst (posts s)
       \<and> Query_posts s' =
           map (\<lambda>post. if post_id post = Number postId then post\<lparr>votes := votes post'\<rparr> else post)
               (Query_posts s)"
proof -
  obtain a b c d where s: "s = with_votes a b c d" using reachable_with_votes [OF assms(1)] by blast
  show ?thesis
    using assms(2) unfolding s
    by (auto simp: Mutation_upvotePost_def Let_def with_votes_def Map_get_def Query_posts_def Map_values_def
        split: if_splits)
qed

text \<open>The seed: upvoting 2 changes the votes of post 2 from 3 to 4 and nothing else.\<close>

theorem upvotePost_frame_witness:
  "reachable seed
   \<and> Mutation_upvotePost seed (JNum (Fin 2)) =
       (Inr \<lparr>post_id = Fin 2, authorId = Fin 2, title = js_string ''Welcome to Meteor'', votes = Fin 4\<rparr>,
        with_votes 2 4 1 7)
   \<and> authors (with_votes 2 4 1 7) = authors seed
   \<and> Query_posts (with_votes 2 4 1 7) = [
       \<lparr>post_id = Fin 1, authorId = Fin 1, title = js_string ''Introduction to GraphQL'', votes = Fin 2\<rparr>,
       \<lparr>post_id = Fin 2, authorId = Fin 2, title = js_string ''Welcome to Meteor'', votes = Fin 4\<rparr>,
       \<lparr>post_id = Fin 3, authorId = Fin 2, title = js_string ''Advanced GraphQL'', votes = Fin 1\<rparr>,
       \<lparr>post_id = Fin 4, authorId = Fin 3, title = js_string ''Launchpad is Cool'', votes = Fin 7\<rparr>]"
proof -
  have a: "js_add (Fin 3) (Fin 1) = Fin 4" using js_add_one_int [of 3] by simp
  have u: "Mutation_upvotePost seed (JNum (Fin 2)) =
       (Inr \<lparr>post_id = Fin 2, authorId = Fin 2, title = js_string ''Welcome to Meteor'', votes = Fin 4\<rparr>,
        with_votes 2 4 1 7)"
    by (simp add: Mutation_upvotePost_def Map_get_def posts_seed Let_def a with_votes_def)
  show ?thesis
    using upvotePost_frame [OF reachable.init u] u reachable.init
    by (simp add: Query_posts_def Map_values_def posts_seed)
qed

subsection \<open>Referential integrity\<close>

text \<open>
  Claim C8. In the seed and after any sequence of \<^verbatim>\<open>upvotePost\<close> calls, the \<open>authorId\<close>
  of every post is the id of an author of the store, and \<^verbatim>\<open>Post.author\<close> finds that author.
\<close>

theorem referential_integrity:
  assumes "reachable s"
  shows "\<forall>post \<in> set (Query_posts s). \<exists>author \<in> set (Map_values (authors s)).
           author_id author = authorId post \<and> Post_author s post = Some author"
proof -
  obtain a b c d where "s = with_votes a b c d" using reachable_with_votes [OF assms] by blast
  then show ?thesis
    by (simp add: Query_posts_def Post_author_def Map_get_def Map_values_def with_votes_def authors_seed)
qed

text \<open>The state after \<open>9007199254740990\<close> upvotes of post 1: the author of post 4 is author 3.\<close>

theorem referential_integrity_witness:
  "reachable at_max_votes
   \<and> \<lparr>post_id = Fin 4, authorId = Fin 3, title = js_string ''Launchpad is Cool'', votes = Fin 7\<rparr>
       \<in> set (Query_posts at_max_votes)
   \<and> Post_author at_max_votes \<lparr>post_id = Fin 4, authorId = Fin 3, title = js_string ''Launchpad is Cool'', votes = Fin 7\<rparr>
       = Some \<lparr>author_id = Fin 3, firstName = js_string ''Mikhail'', lastName = js_string ''Novikov''\<rparr>"
proof -
  have r: "reachable at_max_votes"
    unfolding at_max_votes_def by (rule reachable_upvote_times [OF reachable.init])
  have m: "\<lparr>post_id = Fin 4, authorId = Fin 3, title = js_string ''Launchpad is Cool'', votes = Fin 7\<rparr>
       \<in> set (Query_posts at_max_votes)"
    by (simp add: at_max_votes_with_votes with_votes_def Query_posts_def Map_values_def)
  obtain author where "author \<in> set (Map_values (authors at_max_votes))"
    "Post_author at_max_votes \<lparr>post_id = Fin 4, authorId = Fin 3, title = js_string ''Launchpad is Cool'', votes = Fin 7\<rparr> = Some author"
    using referential_integrity [OF r] m by blast
  moreover have "Post_author at_max_votes \<lparr>post_id = Fin 4, authorId = Fin 3, title = js_string ''Launchpad is Cool'', votes = Fin 7\<rparr>
       = Some \<lparr>author_id = Fin 3, firstName = js_string ''Mikhail'', lastName = js_string ''Novikov''\<rparr>"
    by (simp add: at_max_votes_with_votes with_votes_def Post_author_def Map_get_def authors_seed)
  ultimately show ?thesis using r m by simp
qed

subsection \<open>A failed upvote\<close>

text \<open>
  Claim C9. In any state, when \<^verbatim>\<open>upvotePost\<close> fails, the error is \<open>NotFound\<close> and
  the state after the call is the state before it.
\<close>

theorem upvotePost_failure_leaves_state:
  assumes "fst (Mutation_upvotePost s postId) = Inl e"
  shows "snd (Mutation_upvotePost s postId) = s \<and> e = NotFound PostEntity"
  using assms by (auto simp: Mutation_upvotePost_def Let_def split: option.splits)

text \<open>The seed: \<^verbatim>\<open>upvotePost(9)\<close> fails and returns the seed.\<close>

theorem upvotePost_failure_leaves_state_witness:
  "fst (Mutation_upvotePost seed (JNum (Fin 9))) = Inl (NotFound PostEntity)
   \<and> snd (Mutation_upvotePost seed (JNum (Fin 9))) = seed"
proof -
  have f: "fst (Mutation_upvotePost seed (JNum (Fin 9))) = Inl (NotFound PostEntity)"
    by (simp add: Mutation_upvotePost_def Map_get_def posts_seed)
  show ?thesis using upvotePost_failure_leaves_state [OF f] f by simp
qed

subsection \<open>The argument as a string\<close>

text \<open>
  Claim C10. For every integer \<open>n\<close> that is a Number and every state, \<^verbatim>\<open>author\<close> and
  \<^verbatim>\<open>upvotePost\<close> called with the decimal string of \<open>n\<close> return what they return when
  called with \<open>n\<close>: the same result and the same state. In every reachable state, both
  fail with \<open>NotFound\<close> on a string that \<open>StringToNumber\<close> takes to \<open>NaN\<close>, and
  \<^verbatim>\<open>upvotePost\<close> leaves the state.
\<close>

theorem id_coercion:
  "(is_Number (of_int n) \<longrightarrow>
        Query_author s (JStr (decimal_string n)) = Query_author s (JNum (Fin (of_int n)))
      \<and> Mutation_upvotePost s (JStr (decimal_string n)) = Mutation_upvotePost s (JNum (Fin (of_int n))))
   \<and> (reachable s \<and> StringToNumber str = NaN \<longrightarrow>
        Query_author s (JStr str) = Inl (NotFound AuthorEntity)
      \<and> Mutation_upvotePost s (JStr str) = (Inl (NotFound PostEntity), s))"
proof (intro conjI impI)
  assume "is_Number (of_int n)"
  then have eq: "Number (JStr (decimal_string n)) = Number (JNum (Fin (of_int n)))"
    by (simp add: StringToNumber_decimal_string is_Number_def)
  show "Query_author s (JStr (decimal_string n)) = Query_author s (JNum (Fin (of_int n)))"
    unfolding Query_author_def eq ..
  show "Mutation_upvotePost s (JStr (decimal_string n)) = Mutation_upvotePost s (JNum (Fin (of_int n)))"
    unfolding Mutation_upvotePost_def eq ..
next
  assume h: "reachable s \<and> StringToNumber str = NaN"
  then obtain a b c d where s: "s = with_votes a b c d" using reachable_with_votes by blast
  show "Query_author s (JStr str) = Inl (NotFound AuthorEntity)"
    using h by (simp add: s with_votes_def Query_author_def Map_get_def authors_seed)
  show "Mutation_upvotePost s (JStr str) = (Inl (NotFound PostEntity), s)"
    using h by (simp add: s with_votes_def Mutation_upvotePost_def Map_get_def)
qed

text \<open>The seed, with the strings \<^verbatim>\<open>"2"\<close> and \<^verbatim>\<open>"abc"\<close>.\<close>

theorem id_coercion_witness:
  "is_Number (of_int 2)
   \<and> Query_author seed (JStr (js_string ''2'')) = Query_author seed (JNum (Fin 2))
   \<and> Mutation_upvotePost seed (JStr (js_string ''2'')) = Mutation_upvotePost seed (JNum (Fin 2))
   \<and> reachable seed
   \<and> StringToNumber (js_string ''abc'') = NaN
   \<and> Query_author seed (JStr (js_string ''abc'')) = Inl (NotFound AuthorEntity)
   \<and> Mutation_upvotePost seed (JStr (js_string ''abc'')) = (Inl (NotFound PostEntity), seed)"
proof -
  have i: "is_Number (of_int 2)" by (rule is_Number_of_int) simp
  have a: "Query_author seed (JStr (decimal_string 2)) = Query_author seed (JNum (Fin (of_int 2)))
      \<and> Mutation_upvotePost seed (JStr (decimal_string 2)) = Mutation_upvotePost seed (JNum (Fin (of_int 2)))"
    using id_coercion [of 2 seed "js_string ''abc''"] i by blast
  have b: "Query_author seed (JStr (js_string ''abc'')) = Inl (NotFound AuthorEntity)
      \<and> Mutation_upvotePost seed (JStr (js_string ''abc'')) = (Inl (NotFound PostEntity), seed)"
    using id_coercion [of 2 seed "js_string ''abc''"] reachable.init StringToNumber_abc by blast
  show ?thesis
    using a b i reachable.init StringToNumber_abc by (simp add: decimal_string_2)
qed

end
